theory Spec2Isabelle
  imports Complex_Main "HOL-Library.Multiset" "HOL-Library.AList"
begin

section \<open>Array elements: IEEE-754 double precision\<close>

text \<open>
  The scoring code works on NumPy arrays of \<open>float64\<close>. A double is a finite number,
  one of the two infinities or NaN. A finite number is kept as the rational it denotes;
  \<open>Fin 0\<close> is the zero with positive sign and \<open>MZero\<close> the zero with negative sign. Every
  arithmetic operation computes the exact rational result and rounds it to the nearest
  double, ties to even, with gradual underflow and overflow to infinity, as NumPy does in
  the default rounding mode. NumPy does not raise on division by zero, overflow or
  invalid operations: it returns the IEEE result.
\<close>

datatype fl = Fin rat | MZero | PInf | NInf | NaN

fun isnan :: "fl \<Rightarrow> bool" where
  "isnan NaN = True"
| "isnan _ = False"

fun isinf :: "fl \<Rightarrow> bool" where
  "isinf PInf = True"
| "isinf NInf = True"
| "isinf _ = False"

fun isfinite :: "fl \<Rightarrow> bool" where
  "isfinite (Fin _) = True"
| "isfinite MZero = True"
| "isfinite _ = False"

fun is_zero :: "fl \<Rightarrow> bool" where
  "is_zero (Fin a) = (a = 0)"
| "is_zero MZero = True"
| "is_zero _ = False"

text \<open>The sign bit, and the value of a finite double.\<close>

fun sign_bit :: "fl \<Rightarrow> bool" where
  "sign_bit (Fin a) = (a < 0)"
| "sign_bit MZero = True"
| "sign_bit NInf = True"
| "sign_bit _ = False"

fun fin_val :: "fl \<Rightarrow> rat" where
  "fin_val (Fin a) = a"
| "fin_val _ = 0"

definition signed_zero :: "bool \<Rightarrow> fl" where
  "signed_zero neg = (if neg then MZero else Fin 0)"

definition signed_inf :: "bool \<Rightarrow> fl" where
  "signed_inf neg = (if neg then NInf else PInf)"

subsection \<open>Rounding to the nearest double\<close>

text \<open>\<open>blen n\<close> is the number of binary digits of \<open>n\<close>.\<close>

fun blen :: "nat \<Rightarrow> nat" where
  "blen n = (if n = 0 then 0 else Suc (blen (n div 2)))"

declare blen.simps [simp del]

text \<open>
  For \<open>a > 0\<close>, \<open>floor_log2 a\<close> is the integer \<open>e\<close> with \<open>2^e \<le> a < 2^(e+1)\<close>: for
  \<open>a \<ge> 1\<close> one less than the number of digits of \<open>\<lfloor>a\<rfloor>\<close>, and for \<open>a < 1\<close> the negated
  least \<open>k\<close> with \<open>1/a \<le> 2^k\<close>.
\<close>

definition floor_log2 :: "rat \<Rightarrow> int" where
  "floor_log2 a = (if 1 \<le> a then int (blen (nat \<lfloor>a\<rfloor>)) - 1
                   else - int (blen (nat \<lceil>1 / a\<rceil> - 1)))"

definition pow2 :: "int \<Rightarrow> rat" where
  "pow2 k = (if 0 \<le> k then 2 ^ nat k else 1 / 2 ^ nat (- k))"

definition round_half_even :: "rat \<Rightarrow> int" where
  "round_half_even q =
     (let f = \<lfloor>q\<rfloor>; d = q - of_int f
      in if d < 1/2 then f else if 1/2 < d then f + 1 else if even f then f else f + 1)"

text \<open>
  \<open>round_to_double neg x\<close> rounds the exact result \<open>x\<close>; \<open>neg\<close> is the sign of the zero
  to return when \<open>x\<close> is exactly zero. A double has a 53-bit significand and a binary
  exponent between \<open>-1022\<close> and \<open>1023\<close>: with \<open>e\<close> the exponent of \<open>x\<close>, not below \<open>-1022\<close>,
  the doubles near \<open>x\<close> are the multiples of \<open>2^(e-52)\<close>. A result of magnitude \<open>2^1024\<close>
  or more (the significand \<open>2^53 = 9007199254740992\<close> at exponent 1023) is an infinity, and
  a result that rounds to zero keeps the sign of \<open>x\<close>.
\<close>

definition round_to_double :: "bool \<Rightarrow> rat \<Rightarrow> fl" where
  "round_to_double neg x =
     (if x = 0 then signed_zero neg
      else let e = max (floor_log2 \<bar>x\<bar>) (- 1022)
           in if 1024 \<le> e then signed_inf (x < 0)
              else let n = round_half_even (\<bar>x\<bar> / pow2 (e - 52))
                   in if n = 0 then signed_zero (x < 0)
                      else if e = 1023 \<and> n = 9007199254740992 then signed_inf (x < 0)
                      else Fin ((if x < 0 then - 1 else 1) * of_int n * pow2 (e - 52)))"

subsection \<open>Arithmetic\<close>

fun fl_neg :: "fl \<Rightarrow> fl" where
  "fl_neg (Fin a) = (if a = 0 then MZero else Fin (- a))"
| "fl_neg MZero = Fin 0"
| "fl_neg PInf = NInf"
| "fl_neg NInf = PInf"
| "fl_neg NaN = NaN"

fun fl_abs :: "fl \<Rightarrow> fl" where
  "fl_abs (Fin a) = Fin \<bar>a\<bar>"
| "fl_abs MZero = Fin 0"
| "fl_abs PInf = PInf"
| "fl_abs NInf = PInf"
| "fl_abs NaN = NaN"

text \<open>
  Addition: opposite infinities give NaN; two zeros give the negative zero only when
  both are negative; an exact sum of zero is the positive zero.
\<close>

definition fl_add :: "fl \<Rightarrow> fl \<Rightarrow> fl" where
  "fl_add x y =
     (if isnan x \<or> isnan y then NaN
      else if isinf x then (if isinf y \<and> x \<noteq> y then NaN else x)
      else if isinf y then y
      else if is_zero x \<and> is_zero y then signed_zero (sign_bit x \<and> sign_bit y)
      else round_to_double False (fin_val x + fin_val y))"

definition fl_sub :: "fl \<Rightarrow> fl \<Rightarrow> fl" where
  "fl_sub x y = fl_add x (fl_neg y)"

text \<open>
  Multiplication and division: the sign of the result is the exclusive or of the signs;
  zero times infinity, zero by zero and infinity by infinity are NaN; a non-zero number
  divided by a zero is an infinity.
\<close>

definition fl_mul :: "fl \<Rightarrow> fl \<Rightarrow> fl" where
  "fl_mul x y =
     (if isnan x \<or> isnan y then NaN
      else if isinf x \<or> isinf y
        then (if is_zero x \<or> is_zero y then NaN else signed_inf (sign_bit x \<noteq> sign_bit y))
      else round_to_double (sign_bit x \<noteq> sign_bit y) (fin_val x * fin_val y))"

definition fl_div :: "fl \<Rightarrow> fl \<Rightarrow> fl" where
  "fl_div x y =
     (if isnan x \<or> isnan y then NaN
      else if isinf x then (if isinf y then NaN else signed_inf (sign_bit x \<noteq> sign_bit y))
      else if isinf y then signed_zero (sign_bit x \<noteq> sign_bit y)
      else if is_zero y
        then (if is_zero x then NaN else signed_inf (sign_bit x \<noteq> sign_bit y))
      else round_to_double (sign_bit x \<noteq> sign_bit y) (fin_val x / fin_val y))"

text \<open>
  Comparison \<open>x > y\<close>: every comparison with NaN is false, and the two zeros are equal.
\<close>

definition fl_gt :: "fl \<Rightarrow> fl \<Rightarrow> bool" where
  "fl_gt x y =
     (if isnan x \<or> isnan y then False
      else if x = PInf then y \<noteq> PInf
      else if x = NInf then False
      else if y = PInf then False
      else if y = NInf then True
      else fin_val y < fin_val x)"

text \<open>Equality \<open>x == y\<close>: NaN is equal to nothing, itself included; the zeros are equal.\<close>

definition fl_eq :: "fl \<Rightarrow> fl \<Rightarrow> bool" where
  "fl_eq x y =
     (if isnan x \<or> isnan y then False
      else if isinf x \<or> isinf y then x = y
      else fin_val x = fin_val y)"

text \<open>
  \<open>np.clip(x, lo, hi)\<close> for one element, as NumPy's clip loop computes it:
  \<open>min(max(x, lo), hi)\<close> with \<open>max(a, b) = (a > b ? a : b)\<close> and
  \<open>min(a, b) = (a < b ? a : b)\<close>, a NaN first argument being returned as it is.
\<close>

definition np_clip :: "fl \<Rightarrow> fl \<Rightarrow> fl \<Rightarrow> fl" where
  "np_clip x lo hi =
     (if isnan x then x
      else let m = (if fl_gt x lo then x else lo)
           in if isnan m then m else if fl_gt hi m then m else hi)"

text \<open>\<open>np.isin(x, classes).astype(float)\<close> for one element.\<close>

definition np_isin :: "fl \<Rightarrow> fl list \<Rightarrow> fl" where
  "np_isin x classes = (if list_ex (fl_eq x) classes then Fin 1 else Fin 0)"

section \<open>The scoring engine (\<open>score_candidate_sites.py\<close>)\<close>

text \<open>
  One row of the data frame: the five required columns, after \<open>main\<close> has coerced them
  with \<open>pd.to_numeric(errors="coerce")\<close>, which turns every non-numeric entry into NaN.
\<close>

record site =
  ndvi :: fl
  slope :: fl
  elevation :: fl
  carbon :: fl
  landcover :: fl

text \<open>
  The YAML configuration \<open>cfg[feature][key]\<close>, flattened: the field
  \<open>ndvi_range\<close> is \<open>cfg["ndvi"]["range"]\<close>, and so on.
\<close>

record scoring_cfg =
  ndvi_ideal :: fl
  ndvi_range :: fl
  ndvi_weight :: fl
  slope_max_deg :: fl
  slope_weight :: fl
  elevation_ideal :: fl
  elevation_range :: fl
  elevation_weight :: fl
  carbon_norm_div :: fl
  carbon_weight :: fl
  landcover_pref_classes :: "fl list"
  landcover_weight :: fl

text \<open>\<open>acc[valid] += vals[valid]\<close> on arrays of equal length.\<close>

definition masked_add :: "fl list \<Rightarrow> bool list \<Rightarrow> fl list \<Rightarrow> fl list" where
  "masked_add acc valid vals =
     map (\<lambda>(a, m, v). if m then fl_add a v else a) (zip acc (zip valid vals))"

text \<open>\<open>np.divide(score, weights, out=np.zeros_like(score), where=weights > 0)\<close>.\<close>

definition divide_where :: "fl list \<Rightarrow> fl list \<Rightarrow> fl list" where
  "divide_where score weights =
     map (\<lambda>(s, w). if fl_gt w (Fin 0) then fl_div s w else Fin 0) (zip score weights)"

definition compute_score_vec :: "site list \<Rightarrow> scoring_cfg \<Rightarrow> fl list" where
  "compute_score_vec df cfg =
    (let score0 = replicate (length df) (Fin 0);
         weights0 = replicate (length df) (Fin 0);
         \<comment> \<open>NDVI\<close>
         ndvi_col = map ndvi df;
         valid = map (\<lambda>v. \<not> isnan v) ndvi_col;
         ndvi_score = map (\<lambda>v. fl_sub (Fin 1)
                        (fl_div (fl_abs (fl_sub v (ndvi_ideal cfg))) (ndvi_range cfg))) ndvi_col;
         score1 = masked_add score0 valid (map (\<lambda>s. fl_mul s (ndvi_weight cfg)) ndvi_score);
         weights1 = masked_add weights0 valid (replicate (length df) (ndvi_weight cfg));
         \<comment> \<open>Slope\<close>
         slope_col = map slope df;
         valid = map (\<lambda>v. \<not> isnan v) slope_col;
         slope_score = map (\<lambda>v. np_clip (fl_sub (Fin 1) (fl_div v (slope_max_deg cfg)))
                        (Fin 0) (Fin 1)) slope_col;
         score2 = masked_add score1 valid (map (\<lambda>s. fl_mul s (slope_weight cfg)) slope_score);
         weights2 = masked_add weights1 valid (replicate (length df) (slope_weight cfg));
         \<comment> \<open>Elevation\<close>
         elev = map elevation df;
         valid = map (\<lambda>v. \<not> isnan v) elev;
         elev_score = map (\<lambda>v. fl_sub (Fin 1)
                        (fl_div (fl_abs (fl_sub v (elevation_ideal cfg))) (elevation_range cfg))) elev;
         score3 = masked_add score2 valid (map (\<lambda>s. fl_mul s (elevation_weight cfg)) elev_score);
         weights3 = masked_add weights2 valid (replicate (length df) (elevation_weight cfg));
         \<comment> \<open>Carbon\<close>
         carbon_col = map carbon df;
         valid = map (\<lambda>v. \<not> isnan v) carbon_col;
         carbon_score = map (\<lambda>v. np_clip (fl_div v (carbon_norm_div cfg)) (Fin 0) (Fin 1)) carbon_col;
         score4 = masked_add score3 valid (map (\<lambda>s. fl_mul s (carbon_weight cfg)) carbon_score);
         weights4 = masked_add weights3 valid (replicate (length df) (carbon_weight cfg));
         \<comment> \<open>Landcover\<close>
         lc = map landcover df;
         valid = map (\<lambda>v. \<not> isnan v) lc;
         lc_score = map (\<lambda>v. np_isin v (landcover_pref_classes cfg)) lc;
         score5 = masked_add score4 valid (map (\<lambda>s. fl_mul s (landcover_weight cfg)) lc_score);
         weights5 = masked_add weights4 valid (replicate (length df) (landcover_weight cfg))
     in divide_where score5 weights5)"

subsection \<open>The same computation, one site at a time\<close>

text \<open>
  The vectorised code treats every row independently. \<open>contrib\<close> is what one feature
  block does to the pair of accumulators \<open>(score[i], weights[i]\<close>) of a row.
\<close>

definition contrib :: "fl \<Rightarrow> fl \<Rightarrow> fl \<Rightarrow> fl \<times> fl \<Rightarrow> fl \<times> fl" where
  "contrib v sub w acc =
     (if isnan v then acc else (fl_add (fst acc) (fl_mul sub w), fl_add (snd acc) w))"

text \<open>The three normalisation rules, as the feature blocks write them.\<close>

definition ideal_range_score :: "fl \<Rightarrow> fl \<Rightarrow> fl \<Rightarrow> fl" where
  "ideal_range_score v ideal rng = fl_sub (Fin 1) (fl_div (fl_abs (fl_sub v ideal)) rng)"

definition slope_score :: "fl \<Rightarrow> fl \<Rightarrow> fl" where
  "slope_score v max_deg = np_clip (fl_sub (Fin 1) (fl_div v max_deg)) (Fin 0) (Fin 1)"

definition carbon_score :: "fl \<Rightarrow> fl \<Rightarrow> fl" where
  "carbon_score v norm_div = np_clip (fl_div v norm_div) (Fin 0) (Fin 1)"

definition site_acc :: "scoring_cfg \<Rightarrow> site \<Rightarrow> fl \<times> fl" where
  "site_acc cfg r =
     contrib (landcover r) (np_isin (landcover r) (landcover_pref_classes cfg))
        (landcover_weight cfg)
    (contrib (carbon r) (carbon_score (carbon r) (carbon_norm_div cfg)) (carbon_weight cfg)
    (contrib (elevation r)
        (ideal_range_score (elevation r) (elevation_ideal cfg) (elevation_range cfg))
        (elevation_weight cfg)
    (contrib (slope r) (slope_score (slope r) (slope_max_deg cfg)) (slope_weight cfg)
    (contrib (ndvi r) (ideal_range_score (ndvi r) (ndvi_ideal cfg) (ndvi_range cfg))
        (ndvi_weight cfg)
     (Fin 0, Fin 0)))))"

definition row_score :: "scoring_cfg \<Rightarrow> site \<Rightarrow> fl" where
  "row_score cfg r =
     (case site_acc cfg r of (s, w) \<Rightarrow> if fl_gt w (Fin 0) then fl_div s w else Fin 0)"

text \<open>
  The weight normaliser as the specification words it: the sum of the weights of the
  features that are present (not NaN) for the site, added in the order of the code.
\<close>

definition fl_sum :: "fl list \<Rightarrow> fl" where
  "fl_sum xs = foldl fl_add (Fin 0) xs"

definition present_weight :: "scoring_cfg \<Rightarrow> site \<Rightarrow> fl" where
  "present_weight cfg r =
     fl_sum (map snd (filter (\<lambda>(v, w). \<not> isnan v)
       [(ndvi r, ndvi_weight cfg), (slope r, slope_weight cfg),
        (elevation r, elevation_weight cfg), (carbon r, carbon_weight cfg),
        (landcover r, landcover_weight cfg)]))"

text \<open>
  The weighted sum in the same words: the sum of sub-score times weight over the
  features that are present.
\<close>

definition present_score :: "scoring_cfg \<Rightarrow> site \<Rightarrow> fl" where
  "present_score cfg r =
     fl_sum (map (\<lambda>(v, s, w). fl_mul s w) (filter (\<lambda>(v, s, w). \<not> isnan v)
       [(ndvi r, ideal_range_score (ndvi r) (ndvi_ideal cfg) (ndvi_range cfg), ndvi_weight cfg),
        (slope r, slope_score (slope r) (slope_max_deg cfg), slope_weight cfg),
        (elevation r, ideal_range_score (elevation r) (elevation_ideal cfg) (elevation_range cfg),
           elevation_weight cfg),
        (carbon r, carbon_score (carbon r) (carbon_norm_div cfg), carbon_weight cfg),
        (landcover r, np_isin (landcover r) (landcover_pref_classes cfg),
           landcover_weight cfg)]))"

text \<open>Example inputs: a configuration with unit weights, and a site with no data.\<close>

definition unit_cfg :: scoring_cfg where
  "unit_cfg = \<lparr>ndvi_ideal = Fin (1/2), ndvi_range = Fin (1/2), ndvi_weight = Fin 1,
     slope_max_deg = Fin 30, slope_weight = Fin 1,
     elevation_ideal = Fin 100, elevation_range = Fin 100, elevation_weight = Fin 1,
     carbon_norm_div = Fin 100, carbon_weight = Fin 1,
     landcover_pref_classes = [Fin 10, Fin 20], landcover_weight = Fin 1\<rparr>"

definition no_data :: site where
  "no_data = \<lparr>ndvi = NaN, slope = NaN, elevation = NaN, carbon = NaN, landcover = NaN\<rparr>"

text \<open>Further example inputs.\<close>

definition highland :: site where
  "highland = \<lparr>ndvi = Fin (1/2), slope = Fin 0, elevation = Fin 900, carbon = Fin 100,
     landcover = NaN\<rparr>"

definition ndvi_only :: "fl \<Rightarrow> site" where
  "ndvi_only v = \<lparr>ndvi = v, slope = NaN, elevation = NaN, carbon = NaN, landcover = NaN\<rparr>"

definition slope_only :: "fl \<Rightarrow> site" where
  "slope_only v = \<lparr>ndvi = NaN, slope = v, elevation = NaN, carbon = NaN, landcover = NaN\<rparr>"

definition carbon_only :: "fl \<Rightarrow> site" where
  "carbon_only v = \<lparr>ndvi = NaN, slope = NaN, elevation = NaN, carbon = v, landcover = NaN\<rparr>"

definition no_ndvi :: site where
  "no_ndvi = \<lparr>ndvi = NaN, slope = Fin 15, elevation = Fin 100, carbon = Fin 50,
     landcover = Fin 10\<rparr>"

section \<open>The evaluation orchestrator (\<open>generate_character_dialogue.py\<close>)\<close>

subsection \<open>Exceptions, requests and the chat service\<close>

text \<open>
  A raised exception is the pair of \<open>type(e).__name__\<close> and \<open>str(e)\<close>; a function that
  may raise returns \<open>exc + 'a\<close>, with \<open>Inl\<close> for the exception.
\<close>

record exc =
  exc_type :: string
  exc_msg :: string

definition KeyError :: "string \<Rightarrow> exc" where
  "KeyError k = \<lparr>exc_type = ''KeyError'', exc_msg = [CHR 0x27] @ k @ [CHR 0x27]\<rparr>"

record request =
  system_prompt :: string
  user_prompt :: string
  max_tokens :: int
  temperature :: rat

text \<open>
  One logical call of the chat API is modelled by the outcomes of its successive
  attempts: \<open>attempt n\<close> is what the \<open>n\<close>-th execution of the body of
  \<open>call_chat_async\<close> gives, the text of the first choice or the exception raised. The
  client maps the task that calls (its name within the site) and the request sent to
  such a sequence of outcomes. Every theorem below holds for every client.
\<close>

type_synonym attempts = "nat \<Rightarrow> exc + string"
type_synonym client = "string \<Rightarrow> request \<Rightarrow> attempts"

text \<open>
  The decorator \<open>@retry(stop=stop_after_attempt(5), reraise=True)\<close>: the body is run
  with attempt numbers 1, 2, ...; a result is returned at once, an exception is
  retried unless the attempt number has reached five, and then it is raised again.
  The waiting between attempts takes time only. The first component of the result is
  the number of the last attempt made.
\<close>

function retry_from :: "attempts \<Rightarrow> nat \<Rightarrow> nat \<times> (exc + string)" where
  "retry_from attempt n =
     (case attempt n of
        Inr text \<Rightarrow> (n, Inr text)
      | Inl e \<Rightarrow> if 5 \<le> n then (n, Inl e) else retry_from attempt (Suc n))"
  by pat_completeness auto
termination
  by (relation "measure (\<lambda>(attempt, n). 5 - n)") auto

definition call_chat_async ::
  "(request \<Rightarrow> attempts) \<Rightarrow> string \<Rightarrow> string \<Rightarrow> int \<Rightarrow> rat \<Rightarrow> exc + string" where
  "call_chat_async api sys_prompt usr_prompt mt temp =
     snd (retry_from (api \<lparr>system_prompt = sys_prompt, user_prompt = usr_prompt,
                            max_tokens = mt, temperature = temp\<rparr>) 1)"

text \<open>The number of attempts the same call makes.\<close>

definition attempts_made :: "(request \<Rightarrow> attempts) \<Rightarrow> string \<Rightarrow> string \<Rightarrow> int \<Rightarrow> rat \<Rightarrow> nat" where
  "attempts_made api sys_prompt usr_prompt mt temp =
     fst (retry_from (api \<lparr>system_prompt = sys_prompt, user_prompt = usr_prompt,
                            max_tokens = mt, temperature = temp\<rparr>) 1)"

subsection \<open>Prompt templates\<close>

text \<open>
  A template string is kept in parsed form: literal text and replacement fields
  \<open>{name}\<close>. \<open>str.format(**kwargs)\<close> raises \<open>KeyError\<close> at the first field that the
  keyword arguments do not have. Conversions and format specifications are not
  modelled; the values are strings already.
\<close>

datatype piece = Lit string | Field string

fun format_template :: "piece list \<Rightarrow> (string \<times> string) list \<Rightarrow> exc + string" where
  "format_template [] kwargs = Inr []"
| "format_template (Lit s # ps) kwargs =
     (case format_template ps kwargs of Inl e \<Rightarrow> Inl e | Inr rest \<Rightarrow> Inr (s @ rest))"
| "format_template (Field k # ps) kwargs =
     (case map_of kwargs k of
        None \<Rightarrow> Inl (KeyError k)
      | Some v \<Rightarrow> (case format_template ps kwargs of Inl e \<Rightarrow> Inl e | Inr rest \<Rightarrow> Inr (v @ rest)))"

text \<open>
  One entry of the prompt file. A key that the JSON object does not have is \<open>None\<close>;
  \<open>char_cfg['role']\<close> then raises \<open>KeyError\<close>, \<open>char_cfg.get('style', '')\<close> gives \<open>''\<close>.
\<close>

record char_cfg =
  role :: "string option"
  style :: "string option"
  instruction :: "string option"
  input_template :: "piece list option"

definition getitem :: "string \<Rightarrow> 'a option \<Rightarrow> exc + 'a" where
  "getitem k v = (case v of None \<Rightarrow> Inl (KeyError k) | Some x \<Rightarrow> Inr x)"

definition get_default :: "('k \<times> 'v) list \<Rightarrow> 'k \<Rightarrow> 'v \<Rightarrow> 'v" where
  "get_default d k dflt = (case map_of d k of None \<Rightarrow> dflt | Some v \<Rightarrow> v)"

text \<open>\<open>str.lower\<close> on the ASCII letters.\<close>

definition lower_char :: "char \<Rightarrow> char" where
  "lower_char c = (let n = (of_char c :: nat) in if 65 \<le> n \<and> n \<le> 90 then char_of (n + 32) else c)"

definition lower :: "string \<Rightarrow> string" where
  "lower s = map lower_char s"

subsection \<open>One character task\<close>

definition error_text :: "exc \<Rightarrow> string" where
  "error_text e = ''[Error] '' @ exc_type e @ '': '' @ exc_msg e"

definition temp_map :: "rat \<Rightarrow> (string \<times> rat) list" where
  "temp_map base_temperature =
     [(''explorer'', base_temperature + 2/10),
      (''engineer'', base_temperature),
      (''skeptic'', max (1/10) (base_temperature - 3/10)),
      (''historian'', base_temperature),
      (''ecologist'', base_temperature)]"

definition evaluate_character ::
  "(request \<Rightarrow> attempts) \<Rightarrow> string \<Rightarrow> char_cfg \<Rightarrow> (string \<times> string) list \<Rightarrow> int \<Rightarrow> rat
     \<Rightarrow> exc + (string \<times> string)" where
  "evaluate_character api char_name cfg info mt base_temperature =
     (let temp = get_default (temp_map base_temperature) (lower char_name) base_temperature in
      case getitem ''role'' (role cfg) of Inl e \<Rightarrow> Inl e | Inr role_text \<Rightarrow>
      let sys_prompt = role_text @ [CHR 0x0A] @ (case style cfg of None \<Rightarrow> [] | Some s \<Rightarrow> s) in
      case getitem ''instruction'' (instruction cfg) of Inl e \<Rightarrow> Inl e | Inr instr \<Rightarrow>
      case getitem ''input_template'' (input_template cfg) of Inl e \<Rightarrow> Inl e | Inr tpl \<Rightarrow>
      case format_template tpl info of Inl e \<Rightarrow> Inl e | Inr filled \<Rightarrow>
      let usr_prompt = instr @ [CHR 0x0A, CHR 0x0A] @ filled;
          text = (case call_chat_async api sys_prompt usr_prompt mt temp of
                    Inr t \<Rightarrow> t
                  | Inl e \<Rightarrow> error_text e)
      in Inr (char_name, text))"

subsection \<open>One site\<close>

text \<open>
  A row of the site table: the rendered coordinates of the centroid of its geometry
  (\<open>None\<close> for a row without geometry, where \<open>row.geometry.centroid\<close> raises), and its
  other columns with their values as text.
\<close>

record row =
  centroid :: "string option"
  columns :: "(string \<times> string) list"

record site_metadata =
  site_id :: string
  info :: "(string \<times> string) list"

record evaluation_record =
  metadata :: site_metadata
  characters :: "(string \<times> string) list"
  summary :: string

text \<open>The two defaults that are Japanese text, as UTF-8 bytes.\<close>

definition default_landform :: string where
  "default_landform =
     [CHR 0xE6, CHR 0x9C, CHR 0xAA, CHR 0xE5, CHR 0x88, CHR 0x86, CHR 0xE9, CHR 0xA1, CHR 0x9E]"

definition default_hypothesis :: string where
  "default_hypothesis =
     [CHR 0xE4, CHR 0xBB, CHR 0xAE, CHR 0xE8, CHR 0xAA, CHR 0xAC, CHR 0xE6, CHR 0x9C, CHR 0xAA,
      CHR 0xE5, CHR 0x85, CHR 0xA5, CHR 0xE5, CHR 0x8A, CHR 0x9B]"

definition site_info :: "string \<Rightarrow> row \<Rightarrow> (string \<times> string) list" where
  "site_info coords r =
     [(''coordinates'', coords),
      (''landform'', get_default (columns r) ''landform'' default_landform),
      (''ndvi'', get_default (columns r) ''ndvi'' ''NaN''),
      (''slope_deg'', get_default (columns r) ''slope'' ''NaN''),
      (''elevation_m'', get_default (columns r) ''elevation'' ''NaN''),
      (''river_distance_km'', get_default (columns r) ''river_dist'' ''NaN''),
      (''landcover_class'', get_default (columns r) ''landcover'' ''NaN''),
      (''hypothesis_summary'', get_default (columns r) ''hypothesis'' default_hypothesis),
      (''region_name'', get_default (columns r) ''region'' ''Amazonia'')]"

text \<open>What \<open>row.geometry.centroid\<close> raises when the geometry is \<open>None\<close>.\<close>

definition no_geometry :: exc where
  "no_geometry = \<lparr>exc_type = ''AttributeError'',
     exc_msg = [CHR 0x27] @ ''NoneType'' @ [CHR 0x27] @ '' object has no attribute ''
               @ [CHR 0x27] @ ''centroid'' @ [CHR 0x27]\<rparr>"

text \<open>
  \<open>await asyncio.gather(*tasks)\<close>: the list of the results, or the first exception.
  A character task can only raise while it builds its prompts, before its first
  suspension, so the first exception in time is the first in the order of the list.
\<close>

fun gather :: "(exc + 'a) list \<Rightarrow> exc + 'a list" where
  "gather [] = Inr []"
| "gather (Inl e # ts) = Inl e"
| "gather (Inr x # ts) = (case gather ts of Inl e \<Rightarrow> Inl e | Inr xs \<Rightarrow> Inr (x # xs))"

text \<open>The dict comprehension \<open>{k: v for k, v in pairs}\<close>: a later pair replaces the value.\<close>

definition dict_of :: "('k \<times> 'v) list \<Rightarrow> ('k \<times> 'v) list" where
  "dict_of pairs = fold (\<lambda>(k, v) d. AList.update k v d) pairs []"

text \<open>The keyword arguments that fill the template of the summary step.\<close>

definition summary_kwargs :: "(string \<times> string) list \<Rightarrow> (string \<times> string) list" where
  "summary_kwargs chars =
     [(''explorer_opinion'', get_default chars ''explorer'' ''''),
      (''engineer_opinion'', get_default chars ''engineer'' ''''),
      (''skeptic_opinion'', get_default chars ''skeptic'' ''''),
      (''historian_opinion'', get_default chars ''historian'' ''''),
      (''ecologist_opinion'', get_default chars ''ecologist'' '''')]"

definition evaluate_site ::
  "client \<Rightarrow> string \<Rightarrow> row \<Rightarrow> (string \<times> char_cfg) list \<Rightarrow> int \<Rightarrow> rat
     \<Rightarrow> exc + evaluation_record" where
  "evaluate_site cl sid r prompt_cfg mt temp =
     (case centroid r of
        None \<Rightarrow> Inl no_geometry
      | Some coords \<Rightarrow>
     let inf = site_info coords r;
         char_tasks = map (\<lambda>(char, cfg). evaluate_character (cl char) char cfg inf mt temp)
                        (filter (\<lambda>(char, cfg). char \<noteq> ''summary'') prompt_cfg)
     in case gather char_tasks of Inl e \<Rightarrow> Inl e | Inr char_results \<Rightarrow>
     let chars = dict_of char_results in
     case map_of prompt_cfg ''summary'' of
        None \<Rightarrow> Inr \<lparr>metadata = \<lparr>site_id = sid, info = inf\<rparr>, characters = chars, summary = ''''\<rparr>
      | Some sum_cfg \<Rightarrow>
          (case getitem ''role'' (role sum_cfg) of Inl e \<Rightarrow> Inl e | Inr role_text \<Rightarrow>
           let sys_prompt = role_text @ [CHR 0x0A] @ (case style sum_cfg of None \<Rightarrow> [] | Some s \<Rightarrow> s) in
           case getitem ''input_template'' (input_template sum_cfg) of Inl e \<Rightarrow> Inl e | Inr tpl \<Rightarrow>
           case format_template tpl (summary_kwargs chars) of Inl e \<Rightarrow> Inl e | Inr summary_input \<Rightarrow>
           case call_chat_async (cl ''summary'') sys_prompt summary_input mt temp of
              Inl e \<Rightarrow> Inl e
            | Inr summary_text \<Rightarrow>
                Inr \<lparr>metadata = \<lparr>site_id = sid, info = inf\<rparr>, characters = chars,
                     summary = summary_text\<rparr>))"

subsection \<open>The batch\<close>

text \<open>The site id \<open>f"site_{idx:03d}"\<close>: the index in decimal, padded with zeros to three digits.\<close>

fun dec :: "nat \<Rightarrow> string" where
  "dec n = (if n < 10 then [''0123456789'' ! n]
            else dec (n div 10) @ [''0123456789'' ! (n mod 10)])"

declare dec.simps [simp del]

definition fmt_03d :: "nat \<Rightarrow> string" where
  "fmt_03d n = replicate (3 - length (dec n)) (CHR ''0'') @ dec n"

definition site_id_of :: "nat \<Rightarrow> string" where
  "site_id_of idx = ''site_'' @ fmt_03d idx"

text \<open>
  What a run leaves behind: the files written to the output directory, by name, and
  the list \<open>failed\<close>, which is written to \<open>retry_failed.json\<close> when it is not empty.
\<close>

record batch_output =
  saved :: "string \<rightharpoonup> evaluation_record"
  failed :: "(string \<times> string) list"

text \<open>The body of the loop over the completed site tasks.\<close>

definition settle :: "exc + evaluation_record \<Rightarrow> batch_output \<Rightarrow> batch_output" where
  "settle res out =
     (case res of
        Inl e \<Rightarrow> out\<lparr>failed := failed out @ [(''unknown'', exc_msg e)]\<rparr>
      | Inr result \<Rightarrow>
          out\<lparr>saved := (saved out)(site_id (metadata result) @ ''.json'' \<mapsto> result)\<rparr>)"

definition no_api_key :: exc where
  "no_api_key = \<lparr>exc_type = ''OSError'',
     exc_msg = ''OPENAI_API_KEY '' @
       [CHR 0xE3, CHR 0x81, CHR 0x8C, CHR 0xE8, CHR 0xA8, CHR 0xAD, CHR 0xE5, CHR 0xAE,
        CHR 0x9A, CHR 0xE3, CHR 0x81, CHR 0x95, CHR 0xE3, CHR 0x82, CHR 0x8C, CHR 0xE3,
        CHR 0x81, CHR 0xA6, CHR 0xE3, CHR 0x81, CHR 0x84, CHR 0xE3, CHR 0x81, CHR 0xBE,
        CHR 0xE3, CHR 0x81, CHR 0x9B, CHR 0xE3, CHR 0x82, CHR 0x93]\<rparr>"

text \<open>
  \<open>main\<close>. The client is indexed by the site whose task calls it.
  \<open>asyncio.as_completed\<close> hands the site tasks over in the order in which they
  finish, which is some rearrangement \<open>completion\<close> of the list of tasks.
\<close>

definition site_tasks ::
  "(string \<Rightarrow> client) \<Rightarrow> row list \<Rightarrow> (string \<times> char_cfg) list \<Rightarrow> int \<Rightarrow> rat
     \<Rightarrow> (exc + evaluation_record) list" where
  "site_tasks cl gdf prompt_cfg mt temp =
     map (\<lambda>(idx, r). evaluate_site (cl (site_id_of idx)) (site_id_of idx) r prompt_cfg mt temp)
       (enumerate 0 gdf)"

definition main ::
  "(string \<Rightarrow> client) \<Rightarrow> ((exc + evaluation_record) list \<Rightarrow> (exc + evaluation_record) list)
     \<Rightarrow> row list \<Rightarrow> (string \<times> char_cfg) list \<Rightarrow> string option \<Rightarrow> int \<Rightarrow> rat
     \<Rightarrow> exc + batch_output" where
  "main cl completion gdf prompt_cfg api_key mt temp =
     (if api_key = None \<or> api_key = Some [] then Inl no_api_key
      else Inr (fold settle (completion (site_tasks cl gdf prompt_cfg mt temp))
                  \<lparr>saved = Map.empty, failed = []\<rparr>))"

subsection \<open>Auxiliary notions for the batch\<close>

text \<open>The number that a string of decimal digits denotes; it inverts \<open>dec\<close>.\<close>

definition dec_val :: "string \<Rightarrow> nat" where
  "dec_val s = foldl (\<lambda>a c. 10 * a + (of_char c - 48)) 0 s"

text \<open>The exceptions and the results in a list of task outcomes.\<close>

fun raised :: "(exc + 'a) list \<Rightarrow> exc list" where
  "raised [] = []"
| "raised (Inl e # xs) = e # raised xs"
| "raised (Inr r # xs) = raised xs"

fun returned :: "(exc + 'a) list \<Rightarrow> 'a list" where
  "returned [] = []"
| "returned (Inl e # xs) = returned xs"
| "returned (Inr r # xs) = r # returned xs"

text \<open>The name of the file that the loop writes a record to.\<close>

definition file_name :: "evaluation_record \<Rightarrow> string" where
  "file_name rec = site_id (metadata rec) @ ''.json''"

text \<open>Example inputs: a small prompt file, two rows, and two clients.\<close>

definition rate_limit :: exc where
  "rate_limit = \<lparr>exc_type = ''RateLimitError'', exc_msg = ''rate limit''\<rparr>"

definition persona :: "string \<Rightarrow> char_cfg" where
  "persona r = \<lparr>role = Some r, style = None, instruction = Some ''Assess the site.'',
     input_template = Some [Lit ''Site at '', Field ''coordinates'']\<rparr>"

definition narrator :: char_cfg where
  "narrator = \<lparr>role = Some ''Narrator'', style = None, instruction = None,
     input_template = Some [Field ''explorer_opinion'', Lit '' / '', Field ''skeptic_opinion'']\<rparr>"

definition panel :: "(string \<times> char_cfg) list" where
  "panel = [(''explorer'', persona ''Explorer''), (''poet'', persona ''Poet''),
            (''summary'', narrator)]"

definition row0 :: row where
  "row0 = \<lparr>centroid = Some ''-60.00000, -3.00000'', columns = []\<rparr>"

definition row_without_geometry :: row where
  "row_without_geometry = \<lparr>centroid = None, columns = []\<rparr>"

definition summary_down :: "string \<Rightarrow> client" where
  "summary_down sid task rq n = (if task = ''summary'' then Inl rate_limit else Inr (task @ '' ok''))"

definition always_ok :: "string \<Rightarrow> client" where
  "always_ok sid task rq n = Inr (task @ '' ok'')"


subsection \<open>Requests, and further example inputs\<close>

text \<open>
  The request that a character task sends, or the exception that building its prompts
  raises; likewise for the summary step. \<open>evaluate_character\<close> and \<open>evaluate_site\<close> are
  shown below to build exactly these requests.
\<close>

definition character_request ::
  "string \<Rightarrow> char_cfg \<Rightarrow> (string \<times> string) list \<Rightarrow> int \<Rightarrow> rat \<Rightarrow> exc + request" where
  "character_request char_name cfg ctx mt base_temperature =
     (case role cfg of None \<Rightarrow> Inl (KeyError ''role'') | Some role_text \<Rightarrow>
      case instruction cfg of None \<Rightarrow> Inl (KeyError ''instruction'') | Some instr \<Rightarrow>
      case input_template cfg of None \<Rightarrow> Inl (KeyError ''input_template'') | Some tpl \<Rightarrow>
      case format_template tpl ctx of Inl e \<Rightarrow> Inl e | Inr filled \<Rightarrow>
        Inr \<lparr>system_prompt = role_text @ [CHR 0x0A] @ (case style cfg of None \<Rightarrow> [] | Some s \<Rightarrow> s),
             user_prompt = instr @ [CHR 0x0A, CHR 0x0A] @ filled,
             max_tokens = mt,
             temperature = get_default (temp_map base_temperature) (lower char_name)
                             base_temperature\<rparr>)"

definition summary_request ::
  "char_cfg \<Rightarrow> (string \<times> string) list \<Rightarrow> int \<Rightarrow> rat \<Rightarrow> exc + request" where
  "summary_request sum_cfg chars mt temp =
     (case role sum_cfg of None \<Rightarrow> Inl (KeyError ''role'') | Some role_text \<Rightarrow>
      case input_template sum_cfg of None \<Rightarrow> Inl (KeyError ''input_template'') | Some tpl \<Rightarrow>
      case format_template tpl (summary_kwargs chars) of Inl e \<Rightarrow> Inl e | Inr summary_input \<Rightarrow>
        Inr \<lparr>system_prompt = role_text @ [CHR 0x0A] @ (case style sum_cfg of None \<Rightarrow> [] | Some s \<Rightarrow> s),
             user_prompt = summary_input, max_tokens = mt, temperature = temp\<rparr>)"

text \<open>What \<open>evaluate_character\<close> makes of the outcome of its call.\<close>

definition text_or_error :: "exc + string \<Rightarrow> string" where
  "text_or_error res = (case res of Inr t \<Rightarrow> t | Inl e \<Rightarrow> error_text e)"

text \<open>Example clients: calls that fail twice and then succeed, with the summary step down.\<close>

definition flaky_then_down :: "string \<Rightarrow> client" where
  "flaky_then_down sid task rq n =
     (if task = ''summary'' then Inl rate_limit
      else if n \<le> 2 then Inl rate_limit else Inr (task @ '' ok''))"

definition flaky :: "nat \<Rightarrow> request \<Rightarrow> attempts" where
  "flaky k rq n = (if n \<le> k then Inl rate_limit else Inr ''fine'')"





definition flaky_all :: "string \<Rightarrow> client" where
  "flaky_all sid task rq n = (if n \<le> 2 then Inl rate_limit else Inr (task @ '' ok''))"

definition down :: "request \<Rightarrow> attempts" where
  "down rq n = Inl rate_limit"


definition flaky_record :: evaluation_record where
  "flaky_record = \<lparr>metadata = \<lparr>site_id = ''site_000'', info = site_info ''-60.00000, -3.00000'' row0\<rparr>,
     characters = [(''explorer'', ''explorer ok''), (''poet'', ''poet ok'')],
     summary = ''summary ok''\<rparr>"

section \<open>Properties of the scoring engine\<close>

lemma compute_score_vec_map: "compute_score_vec df cfg = map (row_score cfg) df"
  unfolding compute_score_vec_def Let_def
  apply (rule nth_equalityI)
   apply (simp add: divide_where_def masked_add_def)
  apply (simp add: divide_where_def masked_add_def row_score_def site_acc_def contrib_def
      ideal_range_score_def slope_score_def carbon_score_def)
  done

lemma snd_site_acc: "snd (site_acc cfg r) = present_weight cfg r"
  by (simp add: site_acc_def contrib_def present_weight_def fl_sum_def)

lemma fst_site_acc: "fst (site_acc cfg r) = present_score cfg r"
  by (simp add: site_acc_def contrib_def present_score_def fl_sum_def)

lemma score_formula:
  assumes "i < length df"
  shows "compute_score_vec df cfg ! i
           = (if fl_gt (present_weight cfg (df ! i)) (Fin 0)
              then fl_div (present_score cfg (df ! i)) (present_weight cfg (df ! i)) else Fin 0)"
proof -
  have "compute_score_vec df cfg ! i = row_score cfg (df ! i)"
    using assms by (simp add: compute_score_vec_map)
  also have "\<dots> = (if fl_gt (snd (site_acc cfg (df ! i))) (Fin 0)
              then fl_div (fst (site_acc cfg (df ! i))) (snd (site_acc cfg (df ! i))) else Fin 0)"
    by (simp add: row_score_def split: prod.splits)
  finally show ?thesis by (simp only: fst_site_acc snd_site_acc)
qed

text \<open>Arithmetic on the example inputs, each evaluated with the rounding of the model.\<close>

lemma highland_arith:
  "ideal_range_score (Fin (1/2)) (Fin (1/2)) (Fin (1/2)) = Fin 1"
  "slope_score (Fin 0) (Fin 30) = Fin 1"
  "ideal_range_score (Fin 900) (Fin 100) (Fin 100) = Fin (- 7)"
  "carbon_score (Fin 100) (Fin 100) = Fin 1"
  "fl_mul (Fin 1) (Fin 1) = Fin 1"
  "fl_mul (Fin (- 7)) (Fin 1) = Fin (- 7)"
  "fl_add (Fin 0) (Fin 1) = Fin 1"
  "fl_add (Fin 1) (Fin 1) = Fin 2"
  "fl_add (Fin 2) (Fin 1) = Fin 3"
  "fl_add (Fin 3) (Fin 1) = Fin 4"
  "fl_add (Fin 2) (Fin (- 7)) = Fin (- 5)"
  "fl_add (Fin (- 5)) (Fin 1) = Fin (- 4)"
  "fl_gt (Fin 4) (Fin 0)"
  "fl_div (Fin (- 4)) (Fin 4) = Fin (- 1)"
  by code_simp+

text \<open>
  Claim C1. The NDVI and elevation sub-scores \<open>1 - |v - ideal| / range\<close> are not
  clipped (the slope and carbon sub-scores are), so a value further than \<open>range\<close> from
  the ideal gives a negative sub-score. The site \<open>highland\<close> has four features present,
  three of them ideal, and an elevation of 900 against an ideal of 100 with range 100:
  its score is \<open>(1 + 1 - 7 + 1) / 4 = -1\<close>, outside the unit interval, with all weights
  equal to one.
\<close>

theorem unclipped_elevation_score_negative:
  "compute_score_vec [highland] unit_cfg = [Fin (- 1)]"
  by (simp add: compute_score_vec_map row_score_def site_acc_def contrib_def highland_def
      unit_cfg_def highland_arith)

text \<open>
  Claim C9. A site whose present features carry zero total weight scores exactly
  \<open>0\<close>: the quotient is taken only where the weight sum is greater than zero, and
  every other position keeps the \<open>0\<close> of the output buffer. In particular a site
  whose five features are all absent has weight sum \<open>0\<close> and score \<open>0\<close>, never NaN.
\<close>

theorem zero_weight_site_scores_zero:
  assumes "i < length df"
  shows "(\<not> fl_gt (present_weight cfg (df ! i)) (Fin 0) \<longrightarrow> compute_score_vec df cfg ! i = Fin 0)
       \<and> (present_weight cfg (df ! i) = Fin 0 \<longrightarrow> compute_score_vec df cfg ! i = Fin 0)
       \<and> (isnan (ndvi (df ! i)) \<and> isnan (slope (df ! i)) \<and> isnan (elevation (df ! i))
            \<and> isnan (carbon (df ! i)) \<and> isnan (landcover (df ! i))
          \<longrightarrow> present_weight cfg (df ! i) = Fin 0 \<and> compute_score_vec df cfg ! i = Fin 0)"
proof -
  have sc: "compute_score_vec df cfg ! i = row_score cfg (df ! i)"
    using assms by (simp add: compute_score_vec_map)
  have a: "\<not> fl_gt (present_weight cfg (df ! i)) (Fin 0) \<Longrightarrow> row_score cfg (df ! i) = Fin 0"
    using snd_site_acc [of cfg "df ! i"]
    by (cases "site_acc cfg (df ! i)") (simp add: row_score_def)
  have z: "\<not> fl_gt (Fin 0) (Fin 0)" by (simp add: fl_gt_def)
  have b: "isnan (ndvi (df ! i)) \<and> isnan (slope (df ! i)) \<and> isnan (elevation (df ! i))
            \<and> isnan (carbon (df ! i)) \<and> isnan (landcover (df ! i))
          \<Longrightarrow> present_weight cfg (df ! i) = Fin 0"
    by (simp add: present_weight_def fl_sum_def)
  show ?thesis using a b z sc by auto
qed

theorem zero_weight_site_scores_zero_witness:
  "compute_score_vec [no_data] unit_cfg ! 0 = Fin 0 \<and> present_weight unit_cfg no_data = Fin 0"
  using zero_weight_site_scores_zero [of 0 "[no_data]" unit_cfg]
  by (simp add: no_data_def)

text \<open>
  Claim C5, as stated, fails: with \<open>range = 0\<close> for NDVI the engine raises nothing. It
  divides \<open>0.25\<close> by zero, and the score of the site is minus infinity.
\<close>

theorem zero_range_no_config_error:
  "compute_score_vec [ndvi_only (Fin (3/4))] (unit_cfg\<lparr>ndvi_range := Fin 0\<rparr>) = [NInf]"
  by code_simp

text \<open>Division by a zero of either sign.\<close>

lemma div_pos_by_zero:
  "fl_gt d (Fin 0) \<Longrightarrow> fl_div d (Fin 0) = PInf \<and> fl_div d MZero = NInf"
  by (cases d) (auto simp: fl_gt_def fl_div_def signed_inf_def)

lemma div_neg_by_zero:
  "fl_gt (Fin 0) d \<Longrightarrow> fl_div d (Fin 0) = NInf \<and> fl_div d MZero = PInf"
  by (cases d) (auto simp: fl_gt_def fl_div_def signed_inf_def)

lemma div_zero_by_zero:
  "is_zero d \<Longrightarrow> fl_div d (Fin 0) = NaN \<and> fl_div d MZero = NaN"
  by (cases d) (auto simp: fl_div_def)

lemma one_minus_special:
  "fl_sub (Fin 1) PInf = NInf" "fl_sub (Fin 1) NInf = PInf" "fl_sub (Fin 1) NaN = NaN"
  by (simp_all add: fl_sub_def fl_add_def)

lemma clip_special:
  "np_clip PInf (Fin 0) (Fin 1) = Fin 1" "np_clip NInf (Fin 0) (Fin 1) = Fin 0"
  "np_clip NaN (Fin 0) (Fin 1) = NaN"
  by (simp_all add: np_clip_def fl_gt_def)

text \<open>
  Claim C5, amended. The engine has no guard on the divisors. For every site list and
  every configuration it returns one score per site, and that score is the sum of
  sub-score times weight over the present features divided by the sum of their weights
  (or zero when that sum is not positive), where every sub-score is computed by dividing
  by the configured \<open>range\<close>, \<open>max_deg\<close> or \<open>norm_div\<close>, whatever its sign. Dividing by a
  zero follows IEEE-754. For NDVI and elevation, a value at a positive distance from the
  ideal gets the sub-score minus infinity when \<open>range\<close> is \<open>+0.0\<close> and plus infinity when it
  is \<open>-0.0\<close>, and a value at distance zero gets NaN. For the slope, a zero \<open>max_deg\<close>
  gives a positive value the sub-score 0 (\<open>+0.0\<close>) or 1 (\<open>-0.0\<close>), a negative value 1 or 0,
  and a zero value NaN. For the carbon, a zero \<open>norm_div\<close> gives a positive value the
  sub-score 1 (\<open>+0.0\<close>) or 0 (\<open>-0.0\<close>), a negative value 0 or 1, and a zero value NaN.
\<close>

theorem division_performed_for_any_divisor:
  "length (compute_score_vec df cfg) = length df
   \<and> (\<forall>i<length df. compute_score_vec df cfg ! i
         = (if fl_gt (present_weight cfg (df ! i)) (Fin 0)
            then fl_div (present_score cfg (df ! i)) (present_weight cfg (df ! i)) else Fin 0))
   \<and> (fl_gt (fl_abs (fl_sub v c)) (Fin 0)
        \<longrightarrow> ideal_range_score v c (Fin 0) = NInf \<and> ideal_range_score v c MZero = PInf)
   \<and> (is_zero (fl_abs (fl_sub v c))
        \<longrightarrow> ideal_range_score v c (Fin 0) = NaN \<and> ideal_range_score v c MZero = NaN)
   \<and> (fl_gt v (Fin 0)
        \<longrightarrow> slope_score v (Fin 0) = Fin 0 \<and> slope_score v MZero = Fin 1
          \<and> carbon_score v (Fin 0) = Fin 1 \<and> carbon_score v MZero = Fin 0)
   \<and> (fl_gt (Fin 0) v
        \<longrightarrow> slope_score v (Fin 0) = Fin 1 \<and> slope_score v MZero = Fin 0
          \<and> carbon_score v (Fin 0) = Fin 0 \<and> carbon_score v MZero = Fin 1)
   \<and> (is_zero v
        \<longrightarrow> slope_score v (Fin 0) = NaN \<and> slope_score v MZero = NaN
          \<and> carbon_score v (Fin 0) = NaN \<and> carbon_score v MZero = NaN)"
proof -
  have len: "length (compute_score_vec df cfg) = length df"
    by (simp add: compute_score_vec_map)
  have form: "\<forall>i<length df. compute_score_vec df cfg ! i
         = (if fl_gt (present_weight cfg (df ! i)) (Fin 0)
            then fl_div (present_score cfg (df ! i)) (present_weight cfg (df ! i)) else Fin 0)"
    using score_formula by blast
  have ir1: "ideal_range_score v c (Fin 0) = NInf \<and> ideal_range_score v c MZero = PInf"
    if "fl_gt (fl_abs (fl_sub v c)) (Fin 0)"
    using div_pos_by_zero [OF that] by (simp add: ideal_range_score_def one_minus_special)
  have ir2: "ideal_range_score v c (Fin 0) = NaN \<and> ideal_range_score v c MZero = NaN"
    if "is_zero (fl_abs (fl_sub v c))"
    using div_zero_by_zero [OF that] by (simp add: ideal_range_score_def one_minus_special)
  have p: "slope_score v (Fin 0) = Fin 0 \<and> slope_score v MZero = Fin 1
          \<and> carbon_score v (Fin 0) = Fin 1 \<and> carbon_score v MZero = Fin 0"
    if "fl_gt v (Fin 0)"
    using div_pos_by_zero [OF that]
    by (simp add: slope_score_def carbon_score_def one_minus_special clip_special)
  have n: "slope_score v (Fin 0) = Fin 1 \<and> slope_score v MZero = Fin 0
          \<and> carbon_score v (Fin 0) = Fin 0 \<and> carbon_score v MZero = Fin 1"
    if "fl_gt (Fin 0) v"
    using div_neg_by_zero [OF that]
    by (simp add: slope_score_def carbon_score_def one_minus_special clip_special)
  have z: "slope_score v (Fin 0) = NaN \<and> slope_score v MZero = NaN
          \<and> carbon_score v (Fin 0) = NaN \<and> carbon_score v MZero = NaN"
    if "is_zero v"
    using div_zero_by_zero [OF that]
    by (simp add: slope_score_def carbon_score_def one_minus_special clip_special)
  show ?thesis using len form ir1 ir2 p n z by blast
qed

lemma divisor_examples:
  "fl_gt (fl_abs (fl_sub (Fin (3/4)) (Fin (1/2)))) (Fin 0)"
  "is_zero (fl_abs (fl_sub (Fin (1/2)) (Fin (1/2))))"
  "fl_gt (Fin 5) (Fin 0)"
  "fl_gt (Fin 0) (Fin (- 5))"
  "is_zero MZero"
  by code_simp+

lemma negative_range_example:
  "present_weight (unit_cfg\<lparr>ndvi_range := Fin (- (1/2))\<rparr>) (ndvi_only (Fin (3/4))) = Fin 1"
  "present_score (unit_cfg\<lparr>ndvi_range := Fin (- (1/2))\<rparr>) (ndvi_only (Fin (3/4))) = Fin (3/2)"
  "fl_gt (Fin 1) (Fin 0)"
  "fl_div (Fin (3/2)) (Fin 1) = Fin (3/2)"
  by code_simp+

theorem division_performed_for_any_divisor_witness:
  "ideal_range_score (Fin (3/4)) (Fin (1/2)) (Fin 0) = NInf
   \<and> ideal_range_score (Fin (3/4)) (Fin (1/2)) MZero = PInf
   \<and> ideal_range_score (Fin (1/2)) (Fin (1/2)) (Fin 0) = NaN
   \<and> slope_score (Fin 5) (Fin 0) = Fin 0 \<and> carbon_score (Fin 5) MZero = Fin 0
   \<and> slope_score (Fin (- 5)) MZero = Fin 0 \<and> carbon_score MZero (Fin 0) = NaN
   \<and> compute_score_vec [ndvi_only (Fin (3/4))] (unit_cfg\<lparr>ndvi_range := Fin (- (1/2))\<rparr>) ! 0
        = Fin (3/2)"
  using division_performed_for_any_divisor [where v = "Fin (3/4)" and c = "Fin (1/2)"]
    division_performed_for_any_divisor [where v = "Fin (1/2)" and c = "Fin (1/2)"]
    division_performed_for_any_divisor [where v = "Fin 5"]
    division_performed_for_any_divisor [where v = "Fin (- 5)"]
    division_performed_for_any_divisor [where v = MZero
      and df = "[ndvi_only (Fin (3/4))]" and cfg = "unit_cfg\<lparr>ndvi_range := Fin (- (1/2))\<rparr>"]
  by (simp add: divisor_examples negative_range_example)

text \<open>
  Claim C6, as stated, fails for an infinite value: it passes the \<open>isnan\<close> mask, so it
  counts as present (the weight normaliser of the site is one, not zero) and the
  infinity reaches the returned score. The same site with NaN in place of the infinity
  scores zero.
\<close>

theorem infinite_ndvi_propagates:
  "compute_score_vec [ndvi_only PInf] unit_cfg = [NInf]
   \<and> present_weight unit_cfg (ndvi_only PInf) = Fin 1
   \<and> compute_score_vec [ndvi_only NaN] unit_cfg = [Fin 0]"
  by code_simp

text \<open>
  Finite inputs do not keep the score finite either: a difference of two finite doubles
  can overflow.
\<close>

lemma blen_lower: "2 ^ k \<le> n \<Longrightarrow> k < blen n"
proof (induction k arbitrary: n)
  case 0
  then show ?case by (subst blen.simps) auto
next
  case (Suc k)
  then have "2 ^ k \<le> n div 2" by simp
  then have "k < blen (n div 2)" by (rule Suc.IH)
  moreover have "(0::nat) < 2 ^ Suc k" by simp
  then have "n \<noteq> 0" using Suc.prems by linarith
  ultimately show ?case by (subst blen.simps) simp
qed

lemma round_to_double_overflow:
  assumes "2 ^ 1024 \<le> \<bar>x\<bar>"
  shows "round_to_double neg x = signed_inf (x < 0)"
proof -
  have x0: "x \<noteq> 0" using assms by auto
  have "(2::rat) ^ 1024 = of_int (2 ^ 1024)" by simp
  then have "(2::int) ^ 1024 \<le> \<lfloor>\<bar>x\<bar>\<rfloor>" using assms by (simp add: le_floor_iff)
  then have "(2::nat) ^ 1024 \<le> nat \<lfloor>\<bar>x\<bar>\<rfloor>"
    by (metis nat_mono nat_numeral nat_power_eq zero_le_numeral)
  then have "1024 < blen (nat \<lfloor>\<bar>x\<bar>\<rfloor>)" by (rule blen_lower)
  moreover have "1 \<le> \<bar>x\<bar>" using assms by (meson one_le_numeral one_le_power order_trans)
  ultimately have "1024 \<le> floor_log2 \<bar>x\<bar>" by (simp add: floor_log2_def)
  then show ?thesis using x0 by (simp add: round_to_double_def Let_def)
qed

lemma finite_difference_overflows:
  "fl_sub (Fin (2 ^ 1023)) (Fin (- (2 ^ 1023))) = PInf"
proof -
  have "round_to_double False (2 ^ 1023 + 2 ^ 1023) = signed_inf ((2 ^ 1023 + 2 ^ 1023 :: rat) < 0)"
    by (rule round_to_double_overflow) simp
  then show ?thesis by (simp add: fl_sub_def fl_add_def signed_inf_def)
qed

lemma contrib_nan [simp]: "isnan v \<Longrightarrow> contrib v sub w acc = acc"
  by (simp add: contrib_def)

lemma row_score_ndvi_nan:
  "isnan (ndvi r) \<Longrightarrow>
     row_score (cfg\<lparr>ndvi_ideal := a, ndvi_range := b, ndvi_weight := c\<rparr>) r = row_score cfg r"
  by (simp add: row_score_def site_acc_def)

lemma row_score_slope_nan:
  "isnan (slope r) \<Longrightarrow>
     row_score (cfg\<lparr>slope_max_deg := a, slope_weight := c\<rparr>) r = row_score cfg r"
  by (simp add: row_score_def site_acc_def)

lemma row_score_elevation_nan:
  "isnan (elevation r) \<Longrightarrow>
     row_score (cfg\<lparr>elevation_ideal := a, elevation_range := b, elevation_weight := c\<rparr>) r
       = row_score cfg r"
  by (simp add: row_score_def site_acc_def)

lemma row_score_carbon_nan:
  "isnan (carbon r) \<Longrightarrow>
     row_score (cfg\<lparr>carbon_norm_div := a, carbon_weight := c\<rparr>) r = row_score cfg r"
  by (simp add: row_score_def site_acc_def)

lemma row_score_landcover_nan:
  "isnan (landcover r) \<Longrightarrow>
     row_score (cfg\<lparr>landcover_pref_classes := cs, landcover_weight := c\<rparr>) r
       = row_score cfg r"
  by (simp add: row_score_def site_acc_def)

text \<open>
  Claim C6, amended. A feature value that is NaN (which is what \<open>main\<close> makes of every
  non-numeric entry) is treated as absent: the score of the site does not depend on
  that feature's section of the configuration at all, and it is the sum of sub-score
  times weight divided by the sum of the weights, both sums taken over the features
  that are not NaN only (zero when the weight sum is not positive). So a NaN value
  enters neither the weighted sum nor the weight normaliser. An infinite value is not
  treated as absent: it counts as present. Nothing is claimed about the score being
  finite: infinite values, a zero divisor and overflow all give infinite or NaN scores.
\<close>

theorem nan_feature_is_absent:
  assumes "i < length df"
  shows "(isnan (ndvi (df ! i)) \<longrightarrow>
            compute_score_vec df (cfg\<lparr>ndvi_ideal := a, ndvi_range := b, ndvi_weight := c\<rparr>) ! i
              = compute_score_vec df cfg ! i)
       \<and> (isnan (slope (df ! i)) \<longrightarrow>
            compute_score_vec df (cfg\<lparr>slope_max_deg := a, slope_weight := c\<rparr>) ! i
              = compute_score_vec df cfg ! i)
       \<and> (isnan (elevation (df ! i)) \<longrightarrow>
            compute_score_vec df (cfg\<lparr>elevation_ideal := a, elevation_range := b,
                elevation_weight := c\<rparr>) ! i
              = compute_score_vec df cfg ! i)
       \<and> (isnan (carbon (df ! i)) \<longrightarrow>
            compute_score_vec df (cfg\<lparr>carbon_norm_div := a, carbon_weight := c\<rparr>) ! i
              = compute_score_vec df cfg ! i)
       \<and> (isnan (landcover (df ! i)) \<longrightarrow>
            compute_score_vec df (cfg\<lparr>landcover_pref_classes := cs, landcover_weight := c\<rparr>) ! i
              = compute_score_vec df cfg ! i)
       \<and> compute_score_vec df cfg ! i
           = (if fl_gt (present_weight cfg (df ! i)) (Fin 0)
              then fl_div (present_score cfg (df ! i)) (present_weight cfg (df ! i)) else Fin 0)"
proof -
  have sc: "compute_score_vec df cfg' ! i = row_score cfg' (df ! i)" for cfg'
    using assms by (simp add: compute_score_vec_map)
  have ind: "(isnan (ndvi (df ! i)) \<longrightarrow>
            row_score (cfg\<lparr>ndvi_ideal := a, ndvi_range := b, ndvi_weight := c\<rparr>) (df ! i)
              = row_score cfg (df ! i))
       \<and> (isnan (slope (df ! i)) \<longrightarrow>
            row_score (cfg\<lparr>slope_max_deg := a, slope_weight := c\<rparr>) (df ! i)
              = row_score cfg (df ! i))
       \<and> (isnan (elevation (df ! i)) \<longrightarrow>
            row_score (cfg\<lparr>elevation_ideal := a, elevation_range := b,
                elevation_weight := c\<rparr>) (df ! i)
              = row_score cfg (df ! i))
       \<and> (isnan (carbon (df ! i)) \<longrightarrow>
            row_score (cfg\<lparr>carbon_norm_div := a, carbon_weight := c\<rparr>) (df ! i)
              = row_score cfg (df ! i))
       \<and> (isnan (landcover (df ! i)) \<longrightarrow>
            row_score (cfg\<lparr>landcover_pref_classes := cs, landcover_weight := c\<rparr>) (df ! i)
              = row_score cfg (df ! i))"
    by (intro conjI impI row_score_ndvi_nan row_score_slope_nan row_score_elevation_nan
        row_score_carbon_nan row_score_landcover_nan)
  show ?thesis using ind score_formula [OF assms, of cfg] unfolding sc by (intro conjI) simp_all
qed

lemma no_ndvi_arith:
  "present_weight unit_cfg no_ndvi = Fin 4"
  "present_score unit_cfg no_ndvi = Fin 3"
  "fl_gt (Fin 4) (Fin 0)"
  "fl_div (Fin 3) (Fin 4) = Fin (3/4)"
  by code_simp+

theorem nan_feature_is_absent_witness:
  "compute_score_vec [no_ndvi]
       (unit_cfg\<lparr>ndvi_ideal := NaN, ndvi_range := Fin 0, ndvi_weight := PInf\<rparr>) ! 0
     = compute_score_vec [no_ndvi] unit_cfg ! 0
   \<and> compute_score_vec [no_ndvi] unit_cfg ! 0 = Fin (3/4)"
  using nan_feature_is_absent [where i = 0 and df = "[no_ndvi]" and a = NaN and b = "Fin 0"
      and c = PInf and cfg = unit_cfg]
  by (simp add: no_ndvi_arith) (simp add: no_ndvi_def)

section \<open>Properties of the orchestrator\<close>

lemma dec_val_append: "dec_val (s @ [c]) = 10 * dec_val s + (of_char c - 48)"
  by (simp add: dec_val_def)

lemma digit_val: "d < 10 \<Longrightarrow> (of_char (''0123456789'' ! d) :: nat) - 48 = d"
proof -
  assume "d < 10"
  then have "d \<in> {0, 1, 2, 3, 4, 5, 6, 7, 8, 9}" by auto
  then show ?thesis by auto
qed

lemma dec_val_dec: "dec_val (dec n) = n"
proof (induction n rule: dec.induct)
  case (1 n)
  show ?case
  proof (cases "n < 10")
    case True
    then show ?thesis by (subst dec.simps) (simp add: dec_val_def digit_val)
  next
    case False
    have "dec n = dec (n div 10) @ [''0123456789'' ! (n mod 10)]"
      using False by (subst dec.simps) simp
    then show ?thesis using 1 False by (simp add: dec_val_append digit_val)
  qed
qed

lemma dec_val_zeros: "dec_val (replicate k (CHR ''0'') @ s) = dec_val s"
proof -
  have "foldl (\<lambda>a c. 10 * a + (of_char c - 48)) 0 (replicate k (CHR ''0'')) = (0::nat)"
    by (induction k) simp_all
  then show ?thesis by (simp add: dec_val_def)
qed

lemma site_id_of_inj: "site_id_of i = site_id_of j \<Longrightarrow> i = j"
proof -
  assume "site_id_of i = site_id_of j"
  then have "fmt_03d i = fmt_03d j" by (simp add: site_id_of_def)
  then have "dec_val (fmt_03d i) = dec_val (fmt_03d j)" by simp
  then show "i = j" by (simp add: fmt_03d_def dec_val_zeros dec_val_dec)
qed

lemma evaluate_site_id:
  "evaluate_site cl sid r prompt_cfg mt temp = Inr rec \<Longrightarrow> site_id (metadata rec) = sid"
  by (auto simp: evaluate_site_def Let_def split: option.splits sum.splits)

lemma raised_filter: "raised xs = map projl (filter isl xs)"
  by (induction xs rule: raised.induct) simp_all

lemma returned_filter: "returned xs = map projr (filter (\<lambda>x. \<not> isl x) xs)"
  by (induction xs rule: returned.induct) simp_all

lemma length_raised_returned: "length (raised xs) + length (returned xs) = length xs"
  by (induction xs rule: raised.induct) simp_all

lemma mset_raised: "mset cs = mset os \<Longrightarrow> mset (raised cs) = mset (raised os)"
  by (metis raised_filter mset_filter mset_map)

lemma mset_returned: "mset cs = mset os \<Longrightarrow> mset (returned cs) = mset (returned os)"
  by (metis returned_filter mset_filter mset_map)

lemma set_returned: "r \<in> set (returned xs) \<longleftrightarrow> Inr r \<in> set xs"
  by (induction xs rule: returned.induct) auto

lemma set_raised: "e \<in> set (raised xs) \<longleftrightarrow> Inl e \<in> set xs"
  by (induction xs rule: raised.induct) auto

lemma failed_fold_settle:
  "failed (fold settle cs out) = failed out @ map (\<lambda>e. (''unknown'', exc_msg e)) (raised cs)"
  by (induction cs arbitrary: out rule: raised.induct) (simp_all add: settle_def)

lemma saved_fold_settle:
  "saved (fold settle cs out)
     = saved out ++ map_of (rev (map (\<lambda>r. (file_name r, r)) (returned cs)))"
  by (induction cs arbitrary: out rule: returned.induct)
     (simp_all add: settle_def file_name_def map_add_upd_left)

lemma site_tasks_nth:
  "idx < length gdf \<Longrightarrow> site_tasks cl gdf prompt_cfg mt temp ! idx
     = evaluate_site (cl (site_id_of idx)) (site_id_of idx) (gdf ! idx) prompt_cfg mt temp"
  by (simp add: site_tasks_def nth_enumerate_eq)

lemma length_site_tasks [simp]: "length (site_tasks cl gdf prompt_cfg mt temp) = length gdf"
  by (simp add: site_tasks_def)

lemma site_tasks_returned_id:
  assumes "idx < length gdf" "site_tasks cl gdf prompt_cfg mt temp ! idx = Inr rec"
  shows "file_name rec = site_id_of idx @ ''.json''"
  using assms evaluate_site_id by (simp add: site_tasks_nth file_name_def)

lemma file_name_returned_inj:
  assumes "Inr r \<in> set (site_tasks cl gdf prompt_cfg mt temp)"
    and "Inr r' \<in> set (site_tasks cl gdf prompt_cfg mt temp)"
    and "file_name r = file_name r'"
  shows "r = r'"
proof -
  let ?os = "site_tasks cl gdf prompt_cfg mt temp"
  from assms(1) obtain i where i: "i < length gdf" "?os ! i = Inr r"
    by (auto simp: in_set_conv_nth)
  from assms(2) obtain j where j: "j < length gdf" "?os ! j = Inr r'"
    by (auto simp: in_set_conv_nth)
  have "site_id_of i = site_id_of j"
    using site_tasks_returned_id [OF i] site_tasks_returned_id [OF j] assms(3) by simp
  then have "i = j" by (rule site_id_of_inj)
  then show ?thesis using i j by simp
qed

lemma returned_append: "returned (xs @ ys) = returned xs @ returned ys"
  by (induction xs rule: returned.induct) simp_all

lemma returned_nth_distinct: "distinct (map file_name (returned (site_tasks cl gdf prompt_cfg mt temp)))"
proof -
  let ?os = "site_tasks cl gdf prompt_cfg mt temp"
  have "distinct (map file_name (returned (take n ?os)))" for n
  proof (induction n)
    case 0
    then show ?case by simp
  next
    case (Suc n)
    show ?case
    proof (cases "n < length ?os")
      case False
      then show ?thesis using Suc by simp
    next
      case True
      then have tk: "take (Suc n) ?os = take n ?os @ [?os ! n]"
        by (simp add: take_Suc_conv_app_nth)
      show ?thesis
      proof (cases "?os ! n")
        case (Inl e)
        then show ?thesis using Suc tk by (simp add: returned_append)
      next
        case (Inr r)
        have "file_name r \<notin> file_name ` set (returned (take n ?os))"
        proof
          assume "file_name r \<in> file_name ` set (returned (take n ?os))"
          then obtain r' where r': "r' \<in> set (returned (take n ?os))" "file_name r = file_name r'"
            by auto
          then have "Inr r' \<in> set (take n ?os)" by (simp add: set_returned)
          then obtain j where j: "j < n" "?os ! j = Inr r'"
            using True by (auto simp: in_set_conv_nth)
          have "site_id_of n = site_id_of j"
            using site_tasks_returned_id [of n gdf cl prompt_cfg mt temp r]
              site_tasks_returned_id [of j gdf cl prompt_cfg mt temp r'] True j Inr r'(2)
            by simp
          then have "n = j" by (rule site_id_of_inj)
          then show False using j by simp
        qed
        then show ?thesis using Suc tk Inr by (simp add: returned_append)
      qed
    qed
  qed
  from this [of "length ?os"] show ?thesis by simp
qed

lemma main_output:
  assumes "api_key = Some k" "k \<noteq> []"
  shows "main cl completion gdf prompt_cfg api_key mt temp
     = Inr (fold settle (completion (site_tasks cl gdf prompt_cfg mt temp))
              \<lparr>saved = Map.empty, failed = []\<rparr>)"
  using assms by (simp add: main_def)

lemma settled_batch:
  fixes cl gdf prompt_cfg mt temp completion
  defines "os \<equiv> site_tasks cl gdf prompt_cfg mt temp"
  defines "out \<equiv> fold settle (completion os) \<lparr>saved = Map.empty, failed = []\<rparr>"
  assumes perm: "mset (completion os) = mset os"
  shows "\<And>idx rec. idx < length gdf \<Longrightarrow> os ! idx = Inr rec
            \<Longrightarrow> saved out (site_id_of idx @ ''.json'') = Some rec"
    and "\<And>idx e. idx < length gdf \<Longrightarrow> os ! idx = Inl e
            \<Longrightarrow> saved out (site_id_of idx @ ''.json'') = None
                \<and> (''unknown'', exc_msg e) \<in> set (failed out)"
    and "card (dom (saved out)) = length (returned os)"
    and "length (failed out) = length (raised os)"
    and "\<And>entry. entry \<in> set (failed out) \<Longrightarrow> fst entry = ''unknown''"
    and "\<And>name rec. saved out name = Some rec
            \<Longrightarrow> \<exists>idx<length gdf. os ! idx = Inr rec \<and> name = site_id_of idx @ ''.json''"
proof -
  let ?cs = "completion os"
  let ?L = "map (\<lambda>r. (file_name r, r)) (returned ?cs)"
  have sv: "saved out = map_of (rev ?L)"
    by (simp add: out_def saved_fold_settle)
  have fl: "failed out = map (\<lambda>e. (''unknown'', exc_msg e)) (raised ?cs)"
    by (simp add: out_def failed_fold_settle)
  have mr: "mset (returned ?cs) = mset (returned os)" using perm by (rule mset_returned)
  have ml: "mset (raised ?cs) = mset (raised os)" using perm by (rule mset_raised)
  have "distinct (map file_name (returned os))"
    unfolding os_def by (rule returned_nth_distinct)
  moreover have "mset (map file_name (returned ?cs)) = mset (map file_name (returned os))"
    using mr by simp
  ultimately have dcs: "distinct (map file_name (returned ?cs))"
    using mset_eq_imp_distinct_iff by blast
  then have dL: "distinct (map fst (rev ?L))"
    by (simp add: rev_map [symmetric] comp_def)
  have len: "length os = length gdf" by (simp add: os_def)
  have look: "saved out (file_name r) = Some r" if "r \<in> set (returned os)" for r
  proof -
    from that mr have "r \<in> set (returned ?cs)" using mset_eq_setD by blast
    then have "(file_name r, r) \<in> set (rev ?L)" by auto
    then show ?thesis unfolding sv using dL by (rule map_of_is_SomeI [rotated])
  qed
  have from_saved: "\<exists>idx<length gdf. os ! idx = Inr rec \<and> name = site_id_of idx @ ''.json''"
    if "saved out name = Some rec" for name rec
  proof -
    from that have "(name, rec) \<in> set (rev ?L)" unfolding sv by (rule map_of_SomeD)
    then have n: "name = file_name rec" and "rec \<in> set (returned ?cs)" by auto
    then have "rec \<in> set (returned os)" using mr mset_eq_setD by blast
    then have "Inr rec \<in> set os" by (simp add: set_returned)
    then obtain idx where idx: "idx < length gdf" "os ! idx = Inr rec"
      using len by (auto simp: in_set_conv_nth)
    then have "file_name rec = site_id_of idx @ ''.json''"
      unfolding os_def by (rule site_tasks_returned_id)
    with idx n show ?thesis by auto
  qed
  show "saved out (site_id_of idx @ ''.json'') = Some rec"
    if "idx < length gdf" "os ! idx = Inr rec" for idx rec
  proof -
    have "Inr rec \<in> set os" using that len by (metis nth_mem)
    then have "rec \<in> set (returned os)" by (simp add: set_returned)
    moreover have "file_name rec = site_id_of idx @ ''.json''"
      using that unfolding os_def by (rule site_tasks_returned_id)
    ultimately show ?thesis using look by metis
  qed
  show "saved out (site_id_of idx @ ''.json'') = None
          \<and> (''unknown'', exc_msg e) \<in> set (failed out)"
    if "idx < length gdf" "os ! idx = Inl e" for idx e
  proof
    show "saved out (site_id_of idx @ ''.json'') = None"
    proof (rule ccontr)
      assume "saved out (site_id_of idx @ ''.json'') \<noteq> None"
      then obtain rec where "saved out (site_id_of idx @ ''.json'') = Some rec" by auto
      from from_saved [OF this] obtain j where
        j: "j < length gdf" "os ! j = Inr rec" "site_id_of idx @ ''.json'' = site_id_of j @ ''.json''"
        by auto
      then have "idx = j" using site_id_of_inj by simp
      with that j show False by simp
    qed
    have "Inl e \<in> set os" using that len by (metis nth_mem)
    then have "e \<in> set (raised os)" by (simp add: set_raised)
    then have "e \<in> set (raised ?cs)" using ml mset_eq_setD by blast
    then show "(''unknown'', exc_msg e) \<in> set (failed out)" unfolding fl by auto
  qed
  show "card (dom (saved out)) = length (returned os)"
  proof -
    have "dom (saved out) = set (map file_name (returned ?cs))"
      unfolding sv by (simp add: dom_map_of_conv_image_fst image_image)
    then have "card (dom (saved out)) = length (returned ?cs)"
      using dcs by (simp add: distinct_card del: set_map)
    also have "\<dots> = length (returned os)" using mr by (metis size_mset)
    finally show ?thesis .
  qed
  show "length (failed out) = length (raised os)"
    unfolding fl using ml by (metis length_map size_mset)
  show "fst entry = ''unknown''" if "entry \<in> set (failed out)" for entry
    using that unfolding fl by auto
  show "\<exists>idx<length gdf. os ! idx = Inr rec \<and> name = site_id_of idx @ ''.json''"
    if "saved out name = Some rec" for name rec
    using that by (rule from_saved)
qed

text \<open>
  Claim C2, as stated, fails. A single site is submitted, every call of its summary
  step fails, and the site task raises: no file is written for \<open>site_000\<close>, and the one
  ledger entry carries the literal id \<open>unknown\<close>, so the id of the unit appears neither
  among the emitted records nor in the ledger.
\<close>

theorem failed_unit_id_is_lost:
  "site_id_of 0 = ''site_000''
   \<and> (case main summary_down (\<lambda>ts. ts) [row0] panel (Some ''key'') 512 (7/10) of
        Inl e \<Rightarrow> False
      | Inr out \<Rightarrow> saved out ''site_000.json'' = None
                   \<and> failed out = [(''unknown'', ''rate limit'')])"
  by code_simp

text \<open>
  Claim C2, amended. With an API key set, whatever the order in which the site tasks
  complete, every submitted unit is settled exactly once: a unit whose task returns a
  record has that record, carrying its id, written to the file named after its id; a unit
  whose task raises has no file and the entry \<open>(unknown, message)\<close> in the ledger.
  Every file comes from a submitted unit, every ledger entry has the id \<open>unknown\<close>,
  there are as many files as tasks that returned and as many ledger entries as tasks
  that raised, and together as many as units.
\<close>

theorem every_unit_settled_once:
  assumes "api_key = Some k" "k \<noteq> []"
    and "mset (completion (site_tasks cl gdf prompt_cfg mt temp))
           = mset (site_tasks cl gdf prompt_cfg mt temp)"
  shows "\<exists>out. main cl completion gdf prompt_cfg api_key mt temp = Inr out
     \<and> (\<forall>idx<length gdf.
           case evaluate_site (cl (site_id_of idx)) (site_id_of idx) (gdf ! idx) prompt_cfg mt temp of
             Inr rec \<Rightarrow> saved out (site_id_of idx @ ''.json'') = Some rec
                        \<and> site_id (metadata rec) = site_id_of idx
           | Inl e \<Rightarrow> saved out (site_id_of idx @ ''.json'') = None
                      \<and> (''unknown'', exc_msg e) \<in> set (failed out))
     \<and> (\<forall>name rec. saved out name = Some rec \<longrightarrow>
           (\<exists>idx<length gdf. name = site_id_of idx @ ''.json''
              \<and> evaluate_site (cl (site_id_of idx)) (site_id_of idx) (gdf ! idx) prompt_cfg mt temp
                    = Inr rec))
     \<and> card (dom (saved out)) = length (returned (site_tasks cl gdf prompt_cfg mt temp))
     \<and> length (failed out) = length (raised (site_tasks cl gdf prompt_cfg mt temp))
     \<and> card (dom (saved out)) + length (failed out) = length gdf
     \<and> (\<forall>entry\<in>set (failed out). fst entry = ''unknown'')"
proof -
  let ?os = "site_tasks cl gdf prompt_cfg mt temp"
  let ?out = "fold settle (completion ?os) \<lparr>saved = Map.empty, failed = []\<rparr>"
  note sb = settled_batch [of completion cl gdf prompt_cfg mt temp, OF assms(3)]
  have m: "main cl completion gdf prompt_cfg api_key mt temp = Inr ?out"
    using assms(1,2) by (rule main_output)
  have a: "\<forall>idx<length gdf.
           case evaluate_site (cl (site_id_of idx)) (site_id_of idx) (gdf ! idx) prompt_cfg mt temp of
             Inr rec \<Rightarrow> saved ?out (site_id_of idx @ ''.json'') = Some rec
                        \<and> site_id (metadata rec) = site_id_of idx
           | Inl e \<Rightarrow> saved ?out (site_id_of idx @ ''.json'') = None
                      \<and> (''unknown'', exc_msg e) \<in> set (failed ?out)"
  proof (intro allI impI)
    fix idx assume i: "idx < length gdf"
    then have n: "?os ! idx
        = evaluate_site (cl (site_id_of idx)) (site_id_of idx) (gdf ! idx) prompt_cfg mt temp"
      by (rule site_tasks_nth)
    show "case evaluate_site (cl (site_id_of idx)) (site_id_of idx) (gdf ! idx) prompt_cfg mt temp of
             Inr rec \<Rightarrow> saved ?out (site_id_of idx @ ''.json'') = Some rec
                        \<and> site_id (metadata rec) = site_id_of idx
           | Inl e \<Rightarrow> saved ?out (site_id_of idx @ ''.json'') = None
                      \<and> (''unknown'', exc_msg e) \<in> set (failed ?out)"
    proof (cases "?os ! idx")
      case (Inl e)
      then have ev: "evaluate_site (cl (site_id_of idx)) (site_id_of idx) (gdf ! idx) prompt_cfg
          mt temp = Inl e" using n by simp
      show ?thesis using sb(2) [OF i Inl] by (simp add: ev)
    next
      case (Inr rec)
      then have ev: "evaluate_site (cl (site_id_of idx)) (site_id_of idx) (gdf ! idx) prompt_cfg
          mt temp = Inr rec" using n by simp
      show ?thesis using sb(1) [OF i Inr] evaluate_site_id [OF ev] by (simp add: ev)
    qed
  qed
  have b: "\<forall>name rec. saved ?out name = Some rec \<longrightarrow>
           (\<exists>idx<length gdf. name = site_id_of idx @ ''.json''
              \<and> evaluate_site (cl (site_id_of idx)) (site_id_of idx) (gdf ! idx) prompt_cfg mt temp
                    = Inr rec)"
    using sb(6) site_tasks_nth by metis
  have c: "card (dom (saved ?out)) + length (failed ?out) = length gdf"
    using sb(3) sb(4) length_raised_returned [of ?os] by simp
  show ?thesis using m a b c sb(3) sb(4) sb(5) by blast
qed

theorem every_unit_settled_once_witness:
  "\<exists>out. main summary_down rev [row0, row_without_geometry] (butlast panel) (Some ''key'') 512 (7/10)
            = Inr out
     \<and> card (dom (saved out)) + length (failed out) = 2"
  using every_unit_settled_once [of "Some ''key''" "''key''" rev summary_down
      "[row0, row_without_geometry]" "butlast panel" 512 "7/10"]
  by auto


lemma retry_from_succeeds:
  assumes "\<forall>i. n \<le> i \<and> i < n + k \<longrightarrow> isl (attempt i)" "attempt (n + k) = Inr text" "n + k \<le> 5"
  shows "retry_from attempt n = (n + k, Inr text)"
  using assms
proof (induction k arbitrary: n)
  case 0
  then show ?case by simp
next
  case (Suc k)
  from Suc.prems(1) have "isl (attempt n)" by simp
  then obtain e where e: "attempt n = Inl e" by (cases "attempt n") auto
  have "retry_from attempt n = retry_from attempt (Suc n)"
    using e Suc.prems(3) by simp
  also have "\<dots> = (Suc n + k, Inr text)"
    using Suc.prems by (intro Suc.IH) auto
  finally show ?case by simp
qed

lemma retry_from_exhausted:
  assumes "\<forall>i. n \<le> i \<and> i \<le> 5 \<longrightarrow> isl (attempt i)" "n \<le> 5"
  shows "retry_from attempt n = (5, attempt 5)"
  using assms
proof (induction attempt n rule: retry_from.induct)
  case (1 attempt n)
  from "1.prems" have "isl (attempt n)" by simp
  then obtain e where e: "attempt n = Inl e" by (cases "attempt n") auto
  show ?case
  proof (cases "5 \<le> n")
    case True
    with "1.prems" have "n = 5" by simp
    then show ?thesis using e by simp
  next
    case False
    then have "retry_from attempt n = retry_from attempt (Suc n)" using e by simp
    also have "\<dots> = (5, attempt 5)"
      using "1.IH" [OF e False] "1.prems" False by auto
    finally show ?thesis .
  qed
qed

lemma retry_from_bounds: "n \<le> fst (retry_from attempt n) \<and> fst (retry_from attempt n) \<le> max n 5"
proof (induction attempt n rule: retry_from.induct)
  case (1 attempt n)
  show ?case
  proof (cases "attempt n")
    case (Inr t)
    then show ?thesis by simp
  next
    case (Inl e)
    show ?thesis
    proof (cases "5 \<le> n")
      case True
      then show ?thesis using Inl by simp
    next
      case False
      then have "retry_from attempt n = retry_from attempt (Suc n)" using Inl by simp
      then show ?thesis using "1.IH" [OF Inl False] False by auto
    qed
  qed
qed

lemma evaluate_character_request:
  "evaluate_character api c cfg ctx mt base =
     (case character_request c cfg ctx mt base of
        Inl e \<Rightarrow> Inl e
      | Inr rq \<Rightarrow> Inr (c, text_or_error (call_chat_async api (system_prompt rq) (user_prompt rq)
                             mt (temperature rq))))"
  by (simp add: evaluate_character_def character_request_def getitem_def text_or_error_def Let_def
      split: option.splits sum.splits)

lemma map_of_fold_update:
  "map_of (fold (\<lambda>(k, v) d. AList.update k v d) xs d) = map_of d ++ map_of (rev xs)"
  by (induction xs arbitrary: d) (auto simp: update_conv' map_add_upd_left)

lemma map_of_dict_of: "map_of (dict_of xs) = map_of (rev xs)"
  by (simp add: dict_of_def map_of_fold_update)

lemma gather_results:
  "gather (map f ys) = Inr xs \<Longrightarrow> list_all2 (\<lambda>y x. f y = Inr x) ys xs"
proof (induction ys arbitrary: xs)
  case Nil
  then show ?case by simp
next
  case (Cons y ys)
  then show ?case
    by (cases "f y"; cases "gather (map f ys)") auto
qed

lemma list_all2_pick:
  "list_all2 P ys xs \<Longrightarrow> y \<in> set ys \<Longrightarrow> \<exists>x\<in>set xs. P y x"
  by (induction rule: list_all2_induct) auto

lemma evaluate_character_name:
  "evaluate_character api c cfg ctx mt base = Inr x \<Longrightarrow> fst x = c"
  by (auto simp: evaluate_character_request split: sum.splits)

lemma evaluate_site_unfold:
  "evaluate_site cl sid r prompt_cfg mt temp =
     (case centroid r of
        None \<Rightarrow> Inl no_geometry
      | Some coords \<Rightarrow>
         (case gather (map (\<lambda>(char, cfg). evaluate_character (cl char) char cfg (site_info coords r) mt temp)
                        (filter (\<lambda>(char, cfg). char \<noteq> ''summary'') prompt_cfg)) of
            Inl e \<Rightarrow> Inl e
          | Inr char_results \<Rightarrow>
             (case map_of prompt_cfg ''summary'' of
                None \<Rightarrow> Inr \<lparr>metadata = \<lparr>site_id = sid, info = site_info coords r\<rparr>,
                             characters = dict_of char_results, summary = ''''\<rparr>
              | Some sum_cfg \<Rightarrow>
                 (case summary_request sum_cfg (dict_of char_results) mt temp of
                    Inl e \<Rightarrow> Inl e
                  | Inr rq \<Rightarrow>
                     (case call_chat_async (cl ''summary'') (system_prompt rq) (user_prompt rq) mt temp of
                        Inl e \<Rightarrow> Inl e
                      | Inr summary_text \<Rightarrow>
                          Inr \<lparr>metadata = \<lparr>site_id = sid, info = site_info coords r\<rparr>,
                               characters = dict_of char_results, summary = summary_text\<rparr>)))))"
  by (simp add: evaluate_site_def summary_request_def getitem_def Let_def
      split: option.splits sum.splits)

lemma evaluate_site_character:
  assumes ev: "evaluate_site cl sid r prompt_cfg mt temp = Inr rec"
    and d: "distinct (map fst prompt_cfg)"
    and c: "(c, cfg) \<in> set prompt_cfg" "c \<noteq> ''summary''"
  shows "\<exists>rq. character_request c cfg (info (metadata rec)) mt temp = Inr rq
           \<and> map_of (characters rec) c
               = Some (text_or_error (call_chat_async (cl c) (system_prompt rq) (user_prompt rq)
                         mt (temperature rq)))"
proof -
  let ?ys = "filter (\<lambda>(char, cfg). char \<noteq> ''summary'') prompt_cfg"
  from ev obtain coords where co: "centroid r = Some coords"
    by (auto simp: evaluate_site_unfold split: option.splits)
  let ?f = "\<lambda>(char, cfg). evaluate_character (cl char) char cfg (site_info coords r) mt temp"
  from ev co obtain xs where g: "gather (map ?f ?ys) = Inr xs"
    and ch: "characters rec = dict_of xs" and inf: "info (metadata rec) = site_info coords r"
    by (auto simp: evaluate_site_unfold split: option.splits sum.splits)
  from gather_results [OF g] have la: "list_all2 (\<lambda>y x. ?f y = Inr x) ?ys xs" .
  then have "list_all2 (\<lambda>y x. fst y = fst x) ?ys xs"
    by (rule list_all2_mono) (auto dest: evaluate_character_name)
  then have keys: "map fst ?ys = map fst xs"
    by (induction rule: list_all2_induct) auto
  have "distinct (map fst ?ys)" using d by (rule distinct_map_filter)
  then have dx: "distinct (map fst (rev xs))" using keys by (simp add: rev_map [symmetric])
  have "(c, cfg) \<in> set ?ys" using c by simp
  then obtain x where x: "x \<in> set xs" "?f (c, cfg) = Inr x"
    using list_all2_pick [OF la] by blast
  then obtain rq where rq: "character_request c cfg (site_info coords r) mt temp = Inr rq"
    and xe: "x = (c, text_or_error (call_chat_async (cl c) (system_prompt rq) (user_prompt rq)
                         mt (temperature rq)))"
    by (auto simp: evaluate_character_request split: sum.splits)
  have "map_of (rev xs) c = Some (snd x)"
    using dx x(1) xe by (intro map_of_is_SomeI) auto
  then show ?thesis using rq xe ch inf by (simp add: map_of_dict_of)
qed

lemma evaluate_site_summary:
  assumes ev: "evaluate_site cl sid r prompt_cfg mt temp = Inr rec"
    and s: "map_of prompt_cfg ''summary'' = Some sum_cfg"
  shows "\<exists>rq. summary_request sum_cfg (characters rec) mt temp = Inr rq
           \<and> call_chat_async (cl ''summary'') (system_prompt rq) (user_prompt rq) mt temp
               = Inr (summary rec)"
  using ev s by (auto simp: evaluate_site_unfold split: option.splits sum.splits)


text \<open>
  Claim C4, as stated, fails. The explorer task of \<open>site_000\<close> fails twice, fewer times
  than the ceiling, and then succeeds with a text; the summary step of the same site
  fails five times. The site task raises, so no record is emitted and the text of the
  explorer appears nowhere.
\<close>

theorem successful_text_lost_with_unit:
  "evaluate_character (flaky_then_down ''site_000'' ''explorer'') ''explorer'' (persona ''Explorer'')
       (site_info ''-60.00000, -3.00000'' row0) 512 (7/10) = Inr (''explorer'', ''explorer ok'')
   \<and> evaluate_site (flaky_then_down ''site_000'') ''site_000'' row0 panel 512 (7/10) = Inl rate_limit
   \<and> (case main flaky_then_down (\<lambda>ts. ts) [row0] panel (Some ''key'') 512 (7/10) of
        Inl e \<Rightarrow> False
      | Inr out \<Rightarrow> saved out ''site_000.json'' = None
                   \<and> failed out = [(''unknown'', ''rate limit'')])"
  by code_simp

text \<open>
  Claim C4, amended. A call whose attempts fail \<open>k < 5\<close> times and then succeed returns
  that text after \<open>k + 1\<close> attempts; a call whose first five attempts fail makes exactly
  five attempts and raises the fifth exception; no call makes more than five attempts.
  Whenever the record of a unit is emitted, the entry of each configured character in it
  is the text its call returned, or the error placeholder of the exception its call
  raised, and the summary of the record is the text the summary call returned.
\<close>

theorem retry_policy:
  "(k < 5 \<and> (\<forall>i. 1 \<le> i \<and> i \<le> k \<longrightarrow>
        isl (api \<lparr>system_prompt = sp, user_prompt = up, max_tokens = mt, temperature = t\<rparr> i))
      \<and> api \<lparr>system_prompt = sp, user_prompt = up, max_tokens = mt, temperature = t\<rparr> (Suc k)
          = Inr reply
     \<longrightarrow> call_chat_async api sp up mt t = Inr reply \<and> attempts_made api sp up mt t = Suc k)
   \<and> ((\<forall>i. 1 \<le> i \<and> i \<le> 5 \<longrightarrow>
        isl (api \<lparr>system_prompt = sp, user_prompt = up, max_tokens = mt, temperature = t\<rparr> i))
     \<longrightarrow> call_chat_async api sp up mt t
           = api \<lparr>system_prompt = sp, user_prompt = up, max_tokens = mt, temperature = t\<rparr> 5
         \<and> attempts_made api sp up mt t = 5)
   \<and> 1 \<le> attempts_made api sp up mt t \<and> attempts_made api sp up mt t \<le> 5
   \<and> (evaluate_site cl sid r prompt_cfg mt temp = Inr rec \<and> distinct (map fst prompt_cfg)
        \<and> (c, cfg) \<in> set prompt_cfg \<and> c \<noteq> ''summary''
     \<longrightarrow> (\<exists>rq. character_request c cfg (info (metadata rec)) mt temp = Inr rq
           \<and> map_of (characters rec) c
               = Some (text_or_error (call_chat_async (cl c) (system_prompt rq) (user_prompt rq)
                         mt (temperature rq)))))
   \<and> (evaluate_site cl sid r prompt_cfg mt temp = Inr rec
        \<and> map_of prompt_cfg ''summary'' = Some sum_cfg
     \<longrightarrow> (\<exists>rq. summary_request sum_cfg (characters rec) mt temp = Inr rq
           \<and> call_chat_async (cl ''summary'') (system_prompt rq) (user_prompt rq) mt temp
               = Inr (summary rec)))"
proof -
  let ?rq = "\<lparr>system_prompt = sp, user_prompt = up, max_tokens = mt, temperature = t\<rparr>"
  have a: "call_chat_async api sp up mt t = Inr reply \<and> attempts_made api sp up mt t = Suc k"
    if "k < 5" and "\<forall>i. 1 \<le> i \<and> i \<le> k \<longrightarrow> isl (api ?rq i)"
      and "api ?rq (Suc k) = Inr reply"
    using retry_from_succeeds [of 1 k "api ?rq" reply] that
    by (simp add: call_chat_async_def attempts_made_def)
  have b: "call_chat_async api sp up mt t = api ?rq 5 \<and> attempts_made api sp up mt t = 5"
    if "\<forall>i. 1 \<le> i \<and> i \<le> 5 \<longrightarrow> isl (api ?rq i)"
    using retry_from_exhausted [of 1 "api ?rq"] that
    by (simp add: call_chat_async_def attempts_made_def)
  have c: "1 \<le> attempts_made api sp up mt t \<and> attempts_made api sp up mt t \<le> 5"
    using retry_from_bounds [of 1 "api ?rq"] by (simp add: attempts_made_def)
  show ?thesis
    using a b c evaluate_site_character [of cl sid r prompt_cfg mt temp rec c cfg]
      evaluate_site_summary [of cl sid r prompt_cfg mt temp rec sum_cfg]
    by blast
qed














lemma ev_flaky: "evaluate_site (flaky_all ''site_000'') ''site_000'' row0 panel 512 (7/10) = Inr flaky_record"
  by code_simp




lemma flaky_all_call:
  "call_chat_async (flaky_all sid task) sp up mt t = Inr (task @ '' ok'')"
  using retry_from_succeeds [of 1 2 "flaky_all sid task \<lparr>system_prompt = sp, user_prompt = up,
      max_tokens = mt, temperature = t\<rparr>" "task @ '' ok''"]
  by (simp add: call_chat_async_def flaky_all_def)

theorem retry_policy_witness:
  "call_chat_async (flaky 2) ''s'' ''u'' 512 (7/10) = Inr ''fine''
   \<and> attempts_made (flaky 2) ''s'' ''u'' 512 (7/10) = 3
   \<and> call_chat_async down ''s'' ''u'' 512 (7/10) = Inl rate_limit
   \<and> attempts_made down ''s'' ''u'' 512 (7/10) = 5
   \<and> map_of (characters flaky_record) ''explorer'' = Some ''explorer ok''"
proof -
  have a: "call_chat_async (flaky 2) ''s'' ''u'' 512 (7/10) = Inr ''fine''
      \<and> attempts_made (flaky 2) ''s'' ''u'' 512 (7/10) = 3"
    using retry_policy [where api = "flaky 2" and k = 2 and sp = "''s''" and up = "''u''"
        and mt = 512 and t = "7/10" and reply = "''fine''", THEN conjunct1]
    by (simp add: flaky_def)
  have b: "call_chat_async down ''s'' ''u'' 512 (7/10) = Inl rate_limit
      \<and> attempts_made down ''s'' ''u'' 512 (7/10) = 5"
    using retry_policy [where api = down and sp = "''s''" and up = "''u''"
        and mt = 512 and t = "7/10", THEN conjunct2, THEN conjunct1]
    by (simp add: down_def)
  have c: "map_of (characters flaky_record) ''explorer'' = Some ''explorer ok''"
    using retry_policy [where cl = "flaky_all ''site_000''" and sid = "''site_000''" and r = row0
        and prompt_cfg = panel and mt = 512 and temp = "7/10" and rec = flaky_record
        and c = "''explorer''" and cfg = "persona ''Explorer''",
        THEN conjunct2, THEN conjunct2, THEN conjunct2, THEN conjunct2, THEN conjunct1]
      ev_flaky
    by (auto simp: panel_def flaky_all_call text_or_error_def)
  show ?thesis using a b c by simp
qed



end
